theory Spec2Isabelle
  imports Main
begin

section \<open>The API client of the web UI: data model\<close>

text \<open>
  The development embeds the class \<open>ApiClient\<close> of the web UI's API module: its session
  handling, the construction of the request, and the retry loop of \<open>request\<close>.

  Strings are byte sequences (the UTF-8 form of the JavaScript string). The retry budget
  \<open>retries\<close> and the loop counter \<open>attempt\<close> are natural numbers: \<open>request\<close> is a private
  method and every call site leaves the budget at its default, 3.
\<close>

datatype http_method = GET | POST | PUT | DELETE

text \<open>The interface \<open>ApiResponse<T>\<close>: the field \<open>msg\<close> is a string or a list of strings.\<close>

datatype response_type = success | danger | warning | info

datatype message = Single string | Multi "string list"

record 'a ApiResponse =
  type :: response_type
  msg :: message
  log :: "(string \<times> string) option"
  data :: "'a option"

text \<open>
  A request payload (\<open>body?: any\<close>) is a JSON value; \<open>truthy\<close> is JavaScript's conversion to
  a boolean, which the test \<open>body && ...\<close> applies.
\<close>

datatype json =
    JNull
  | JBool bool
  | JNumber int
  | JString string
  | JArray "json list"
  | JObject "(string \<times> json) list"

fun truthy :: "json \<Rightarrow> bool" where
  "truthy JNull = False"
| "truthy (JBool b) = b"
| "truthy (JNumber n) = (n \<noteq> 0)"
| "truthy (JString s) = (s \<noteq> [])"
| "truthy (JArray xs) = True"
| "truthy (JObject kvs) = True"

text \<open>
  \<open>RequestInit\<close>, as \<open>request\<close> fills it. The field \<open>body\<close> holds the payload that
  \<open>JSON.stringify\<close> serialises; \<open>None\<close> is a request without a body.
\<close>

record RequestInit =
  "method" :: http_method
  headers :: "(string \<times> string) list"
  credentials :: string
  body :: "json option"

text \<open>
  The client object together with the browser's \<open>localStorage\<close>; the storage is \<open>None\<close>
  where \<open>window\<close> is undefined.
\<close>

record ApiClient =
  baseUrl :: string
  apiKey :: string
  sessionId :: "string option"
  localStorage :: "(string \<rightharpoonup> string) option"

text \<open>
  What one call of \<open>fetch\<close> followed by \<open>response.json()\<close> can give: the fetch rejects (no
  response), or a response with a status arrives whose body either fails to yield an
  envelope (the exception carries a text) or parses to one.
\<close>

datatype 'a body_result = Unparseable string | Parsed "'a ApiResponse"

datatype 'a outcome = Rejected string | Response nat "'a body_result"

text \<open>
  Thrown values: an \<open>Error\<close> that \<open>request\<close> creates itself, the value a rejected fetch
  carries, and the exception of reading the body.
\<close>

datatype error = Error string | FetchError string | BodyError string

text \<open>The observable effects of a call, in order: transport attempts and sleeps (ms).\<close>

datatype event = Fetch string RequestInit | Sleep nat

fun is_Fetch :: "event \<Rightarrow> bool" where
  "is_Fetch (Fetch u opts) = True"
| "is_Fetch (Sleep ms) = False"

fun delays :: "event list \<Rightarrow> nat list" where
  "delays [] = []"
| "delays (Fetch u opts # evs) = delays evs"
| "delays (Sleep ms # evs) = ms # delays evs"

definition attempts :: "event list \<Rightarrow> nat" where
  "attempts evs = length (filter is_Fetch evs)"

section \<open>Session\<close>

definition setSession :: "string option \<Rightarrow> ApiClient \<Rightarrow> ApiClient" where
  "setSession sid c =
     (let c1 = c\<lparr>sessionId := sid\<rparr> in
      case localStorage c1 of
        None \<Rightarrow> c1
      | Some store \<Rightarrow>
          (case sid of
             Some t \<Rightarrow>
               if t \<noteq> [] then c1\<lparr>localStorage := Some (store(''session_id'' \<mapsto> t))\<rparr>
               else c1\<lparr>localStorage := Some (store(''session_id'' := None))\<rparr>
           | None \<Rightarrow> c1\<lparr>localStorage := Some (store(''session_id'' := None))\<rparr>))"

section \<open>Request construction\<close>

text \<open>
  \<open>encodeURIComponent\<close>: every byte except the letters, the digits and \<open>- _ . ! ~ * ' ( )\<close>
  becomes \<open>%XX\<close> with upper-case hexadecimal digits. (A JavaScript string with an unpaired
  surrogate has no UTF-8 form; on it the function throws before any attempt is made.)
\<close>

definition unreserved :: "char \<Rightarrow> bool" where
  "unreserved ch =
     (let n = (of_char ch :: nat) in
      (65 \<le> n \<and> n \<le> 90) \<or> (97 \<le> n \<and> n \<le> 122) \<or> (48 \<le> n \<and> n \<le> 57) \<or>
      n \<in> {45, 95, 46, 33, 126, 42, 39, 40, 41})"

definition hexdigit :: "nat \<Rightarrow> char" where
  "hexdigit n = ''0123456789ABCDEF'' ! (n mod 16)"

definition percent :: "char \<Rightarrow> string" where
  "percent ch =
     [CHR ''%'', hexdigit ((of_char ch :: nat) div 16), hexdigit ((of_char ch :: nat) mod 16)]"

definition encodeURIComponent :: "string \<Rightarrow> string" where
  "encodeURIComponent q = concat (map (\<lambda>ch. if unreserved ch then [ch] else percent ch) q)"

definition buildUrl :: "ApiClient \<Rightarrow> string \<Rightarrow> string" where
  "buildUrl c query = baseUrl c @ ''?query='' @ encodeURIComponent query"

text \<open>The headers and options that \<open>request\<close> prepares before its loop.\<close>

definition request_headers :: "ApiClient \<Rightarrow> (string \<times> string) list" where
  "request_headers c =
     [(''Content-Type'', ''application/json'')] @
     (if apiKey c \<noteq> [] then [(''X-API-Key'', apiKey c)] else [])"

definition request_options :: "ApiClient \<Rightarrow> http_method \<Rightarrow> json option \<Rightarrow> RequestInit" where
  "request_options c m b =
     \<lparr>method = m,
      headers = request_headers c,
      credentials = ''include'',
      body = (case b of
                None \<Rightarrow> None
              | Some v \<Rightarrow> if truthy v \<and> (m = POST \<or> m = PUT) then Some v else None)\<rparr>"

section \<open>The retry loop\<close>

definition ok :: "nat \<Rightarrow> bool" where
  "ok status = (200 \<le> status \<and> status \<le> 299)"

fun join :: "string list \<Rightarrow> string" where
  "join [] = []"
| "join [x] = x"
| "join (x # y # ys) = x @ '', '' @ join (y # ys)"

text \<open>How the \<open>try\<close> block of one iteration ends.\<close>

datatype 'a try_end = TReturn "'a ApiResponse" | TContinue | TThrow error

definition read_body ::
  "'a body_result \<Rightarrow> ApiClient \<Rightarrow> event list \<Rightarrow> 'a try_end \<times> ApiClient \<times> event list" where
  "read_body b c evs =
     (case b of
        Unparseable txt \<Rightarrow> (TThrow (BodyError txt), c, evs)
      | Parsed d \<Rightarrow>
          if type d = danger
          then (TThrow (Error (case msg d of Multi xs \<Rightarrow> join xs | Single x \<Rightarrow> x)), c, evs)
          else (TReturn d, c, evs))"

definition try_block ::
  "(nat \<Rightarrow> 'a outcome) \<Rightarrow> string \<Rightarrow> RequestInit \<Rightarrow> nat \<Rightarrow> nat \<Rightarrow> ApiClient \<Rightarrow>
     'a try_end \<times> ApiClient \<times> event list" where
  "try_block fetch url options retries attempt c =
     (case fetch attempt of
        Rejected txt \<Rightarrow> (TThrow (FetchError txt), c, [Fetch url options])
      | Response status b \<Rightarrow>
          if \<not> ok status then
            if status = 401 then
              (TThrow (Error ''Unauthorized - please login again''), setSession None c,
               [Fetch url options])
            else if status = 403 then
              (TThrow (Error ''Forbidden - insufficient permissions''), c, [Fetch url options])
            else if status \<ge> 500 \<and> attempt < retries then
              (TContinue, c, [Fetch url options, Sleep (2 ^ attempt * 1000)])
            else read_body b c [Fetch url options]
          else read_body b c [Fetch url options])"

text \<open>
  How the \<open>for\<close> loop ends: by \<open>return\<close>, by an exception leaving the \<open>catch\<close> clause, or
  by its condition becoming false.
\<close>

datatype 'a loop_end = Return "'a ApiResponse" | Throw error | Fallthrough

function for_loop ::
  "(nat \<Rightarrow> 'a outcome) \<Rightarrow> string \<Rightarrow> RequestInit \<Rightarrow> nat \<Rightarrow> nat \<Rightarrow> ApiClient \<Rightarrow>
     'a loop_end \<times> ApiClient \<times> event list" where
  "for_loop fetch url options retries attempt c =
     (if attempt \<le> retries then
        (case try_block fetch url options retries attempt c of
           (TReturn d, c1, evs) \<Rightarrow> (Return d, c1, evs)
         | (TContinue, c1, evs) \<Rightarrow>
             (case for_loop fetch url options retries (Suc attempt) c1 of
                (r, c2, evs2) \<Rightarrow> (r, c2, evs @ evs2))
         | (TThrow e, c1, evs) \<Rightarrow>
             if attempt = retries then (Throw e, c1, evs)
             else
               (case for_loop fetch url options retries (Suc attempt) c1 of
                  (r, c2, evs2) \<Rightarrow> (r, c2, evs @ Sleep (2 ^ attempt * 1000) # evs2)))
      else (Fallthrough, c, []))"
  by pat_completeness auto
termination
  by (relation "measure (\<lambda>(fetch, url, options, retries, attempt, c). Suc retries - attempt)") auto

declare for_loop.simps [simp del]

definition request ::
  "(nat \<Rightarrow> 'a outcome) \<Rightarrow> http_method \<Rightarrow> string \<Rightarrow> json option \<Rightarrow> nat \<Rightarrow> ApiClient \<Rightarrow>
     (error + 'a ApiResponse) \<times> ApiClient \<times> event list" where
  "request fetch m query b retries c =
     (case for_loop fetch (buildUrl c query) (request_options c m b) retries 0 c of
        (Return d, c1, evs) \<Rightarrow> (Inr d, c1, evs)
      | (Throw e, c1, evs) \<Rightarrow> (Inl e, c1, evs)
      | (Fallthrough, c1, evs) \<Rightarrow> (Inl (Error ''Maximum retries exceeded''), c1, evs))"

text \<open>The three components of what a call leaves behind.\<close>

definition result_of :: "'r \<times> ApiClient \<times> event list \<Rightarrow> 'r" where
  "result_of x = fst x"

definition client_of :: "'r \<times> ApiClient \<times> event list \<Rightarrow> ApiClient" where
  "client_of x = fst (snd x)"

definition events_of :: "'r \<times> ApiClient \<times> event list \<Rightarrow> event list" where
  "events_of x = snd (snd x)"

section \<open>Operations built on \<open>request\<close>\<close>

text \<open>
  Each operation calls \<open>request\<close> with the default budget of 3 retries. The payload types of
  these operations are object types, so \<open>response.data || d\<close> yields \<open>d\<close> exactly when the
  field is absent. In the result of \<open>getAuthStatus\<close> and \<open>getAnalysis\<close>, \<open>None\<close> is \<open>null\<close>;
  in that of \<open>getMailbox\<close> (\<open>response.data!\<close>, an assertion without effect at run time) it
  is \<open>undefined\<close>.
\<close>

definition getAuthStatus ::
  "(nat \<Rightarrow> 'a outcome) \<Rightarrow> ApiClient \<Rightarrow> (error + 'a option) \<times> ApiClient \<times> event list" where
  "getAuthStatus fetch c =
     (case request fetch GET ''get/user/auth'' None 3 c of
        (Inr response, c1, evs) \<Rightarrow>
          (Inr (case data response of Some d \<Rightarrow> Some d | None \<Rightarrow> None), c1, evs)
      | (Inl e, c1, evs) \<Rightarrow> (Inr None, c1, evs))"

definition getMailboxes ::
  "(nat \<Rightarrow> 'a list outcome) \<Rightarrow> ApiClient \<Rightarrow> (error + 'a list) \<times> ApiClient \<times> event list" where
  "getMailboxes fetch c =
     (case request fetch GET ''get/mailbox/all'' None 3 c of
        (Inr response, c1, evs) \<Rightarrow>
          (Inr (case data response of Some d \<Rightarrow> d | None \<Rightarrow> []), c1, evs)
      | (Inl e, c1, evs) \<Rightarrow> (Inl e, c1, evs))"


definition getAnalysis ::
  "(nat \<Rightarrow> 'a outcome) \<Rightarrow> string \<Rightarrow> string \<Rightarrow> ApiClient \<Rightarrow>
     (error + 'a option) \<times> ApiClient \<times> event list" where
  "getAnalysis fetch emailId mailbox c =
     (case request fetch GET
             (''get/llm/analysis?email_id='' @ emailId @ ''&mailbox='' @ mailbox) None 3 c of
        (Inr response, c1, evs) \<Rightarrow>
          (Inr (case data response of Some d \<Rightarrow> Some d | None \<Rightarrow> None), c1, evs)
      | (Inl e, c1, evs) \<Rightarrow> (Inr None, c1, evs))"

section \<open>Vocabulary of the properties\<close>

text \<open>
  A retryable failure of one attempt: the fetch did not complete, or a response with a 5xx
  status arrived.
\<close>

fun retryable :: "'a outcome \<Rightarrow> bool" where
  "retryable (Rejected txt) = True"
| "retryable (Response status b) = (500 \<le> status \<and> status \<le> 599)"

text \<open>The session store holds no token: neither the field nor the persisted entry.\<close>

definition session_empty :: "ApiClient \<Rightarrow> bool" where
  "session_empty c =
     (sessionId c = None \<and>
      (case localStorage c of None \<Rightarrow> True | Some store \<Rightarrow> store ''session_id'' = None))"

text \<open>The events of \<open>n\<close> failed attempts \<open>a, a + 1, ...\<close>, each followed by its backoff sleep.\<close>

fun backoff :: "string \<Rightarrow> RequestInit \<Rightarrow> nat \<Rightarrow> nat \<Rightarrow> event list" where
  "backoff url options a 0 = []"
| "backoff url options a (Suc n) =
     Fetch url options # Sleep (2 ^ a * 1000) # backoff url options (Suc a) n"

subsection \<open>Concrete inputs\<close>

definition client0 :: ApiClient where
  "client0 =
     \<lparr>baseUrl = ''/json_api.php'', apiKey = [], sessionId = Some ''s3cr3t'',
      localStorage = Some [''session_id'' \<mapsto> ''s3cr3t'']\<rparr>"

definition envelope0 :: "json ApiResponse" where
  "envelope0 =
     \<lparr>type = success, msg = Single ''ok'', log = None,
      data = Some (JObject [(''a'', JNumber 1)])\<rparr>"

definition envelope_taken :: "json ApiResponse" where
  "envelope_taken =
     \<lparr>type = danger, msg = Single ''username taken'', log = None, data = None\<rparr>"

definition envelope_info :: "json ApiResponse" where
  "envelope_info =
     \<lparr>type = info, msg = Single ''maintenance'', log = None, data = None\<rparr>"



text \<open>Two transports: one that answers every attempt alike, one whose first answer differs.\<close>

definition always :: "'a outcome \<Rightarrow> nat \<Rightarrow> 'a outcome" where
  "always x k = x"

definition first_then :: "'a outcome \<Rightarrow> 'a outcome \<Rightarrow> nat \<Rightarrow> 'a outcome" where
  "first_then x y k = (if k = 0 then x else y)"

section \<open>The iterations of the loop\<close>

lemma try_block_continue:
  assumes "try_block fetch url options retries attempt c = (TContinue, c1, evs)"
  shows "attempt < retries" and "c1 = c"
    and "evs = [Fetch url options, Sleep (2 ^ attempt * 1000)]"
  using assms
  by (auto simp: try_block_def read_body_def
           split: outcome.splits if_splits body_result.splits)

lemma try_block_events:
  assumes "try_block fetch url options retries attempt c = (t, c1, evs)"
    and "t \<noteq> TContinue"
  shows "evs = [Fetch url options]"
  using assms
  by (auto simp: try_block_def read_body_def
           split: outcome.splits if_splits body_result.splits)

lemma for_loop_cases:
  assumes "for_loop fetch url options retries attempt c = (r, c', evs)"
  obtains
    (exit) "retries < attempt" "r = Fallthrough" "c' = c" "evs = []"
  | (return) d where "attempt \<le> retries"
      "try_block fetch url options retries attempt c = (TReturn d, c', [Fetch url options])"
      "r = Return d" "evs = [Fetch url options]"
  | (continue) "attempt < retries"
      "try_block fetch url options retries attempt c =
         (TContinue, c, [Fetch url options, Sleep (2 ^ attempt * 1000)])"
      "for_loop fetch url options retries (Suc attempt) c = (r, c', drop 2 evs)"
      "evs = Fetch url options # Sleep (2 ^ attempt * 1000) # drop 2 evs"
  | (throw) e where "attempt = retries"
      "try_block fetch url options retries attempt c = (TThrow e, c', [Fetch url options])"
      "r = Throw e" "evs = [Fetch url options]"
  | (retry) e c1 where "attempt < retries"
      "try_block fetch url options retries attempt c = (TThrow e, c1, [Fetch url options])"
      "for_loop fetch url options retries (Suc attempt) c1 = (r, c', drop 2 evs)"
      "evs = Fetch url options # Sleep (2 ^ attempt * 1000) # drop 2 evs"
proof (cases "attempt \<le> retries")
  case False
  with assms have "r = Fallthrough" "c' = c" "evs = []"
    by (simp_all add: for_loop.simps)
  with False exit show thesis by simp
next
  case le: True
  obtain t c1 evs1 where tb: "try_block fetch url options retries attempt c = (t, c1, evs1)"
    by (cases "try_block fetch url options retries attempt c") auto
  obtain r2 c2 evs2 where
    fl: "for_loop fetch url options retries (Suc attempt) c1 = (r2, c2, evs2)"
    by (cases "for_loop fetch url options retries (Suc attempt) c1") auto
  show thesis
  proof (cases t)
    case (TReturn d)
    with assms le tb have "r = Return d" "c' = c1" "evs = evs1"
      by (simp_all add: for_loop.simps)
    with return le tb TReturn try_block_events [OF tb] show thesis by simp
  next
    case TContinue
    note tc = try_block_continue [OF tb [unfolded TContinue]]
    from assms le tb TContinue fl have "r = r2" "c' = c2" "evs = evs1 @ evs2"
      by (simp_all add: for_loop.simps)
    with continue tc tb TContinue fl show thesis by simp
  next
    case (TThrow e)
    have ev: "evs1 = [Fetch url options]"
      using try_block_events [OF tb] TThrow by simp
    show thesis
    proof (cases "attempt = retries")
      case True
      with assms le tb TThrow have "r = Throw e" "c' = c1" "evs = evs1"
        by (simp_all add: for_loop.simps)
      with throw True tb TThrow ev show thesis by simp
    next
      case False
      with assms le tb TThrow fl
      have "r = r2" "c' = c2" "evs = evs1 @ Sleep (2 ^ attempt * 1000) # evs2"
        by (simp_all add: for_loop.simps)
      with retry [of e c1] False le tb TThrow fl ev show thesis by simp
    qed
  qed
qed

text \<open>The loop never ends by its condition when it is entered with the condition true.\<close>

lemma for_loop_not_fallthrough:
  assumes "for_loop fetch url options retries attempt c = (r, c', evs)"
    and "attempt \<le> retries"
  shows "r \<noteq> Fallthrough"
  using assms
proof (induction "retries - attempt" arbitrary: attempt c evs)
  case 0
  from "0.prems"(1) show ?case
    using "0.hyps" "0.prems"(2) by (cases rule: for_loop_cases) auto
next
  case (Suc n)
  from Suc.prems(1) show ?case
  proof (cases rule: for_loop_cases)
    case continue
    with Suc.hyps(1) [of "Suc attempt" c "drop 2 evs"] Suc.hyps(2) show ?thesis by simp
  next
    case (retry e c1)
    with Suc.hyps(1) [of "Suc attempt" c1 "drop 2 evs"] Suc.hyps(2) show ?thesis by simp
  qed (use Suc.prems in auto)
qed

text \<open>
  The shape of the trace: \<open>n\<close> failed attempts with their sleeps, then one last attempt.
\<close>

lemma for_loop_trace:
  assumes "for_loop fetch url options retries attempt c = (r, c', evs)"
    and "attempt \<le> retries"
  shows "\<exists>n. attempt + n \<le> retries \<and> evs = backoff url options attempt n @ [Fetch url options]"
  using assms
proof (induction "retries - attempt" arbitrary: attempt c evs)
  case 0
  from "0.prems"(1) have "evs = backoff url options attempt 0 @ [Fetch url options]"
    using "0.hyps" "0.prems"(2) by (cases rule: for_loop_cases) auto
  with "0.prems"(2) show ?case by (intro exI [of _ 0]) simp
next
  case (Suc k)
  from Suc.prems(1) show ?case
  proof (cases rule: for_loop_cases)
    case exit
    with Suc.prems show ?thesis by simp
  next
    case (return d)
    with Suc.prems(2) show ?thesis by (intro exI [of _ 0]) simp
  next
    case (throw e)
    with Suc.prems(2) show ?thesis by (intro exI [of _ 0]) simp
  next
    case continue
    have "k = retries - Suc attempt" using Suc.hyps(2) by simp
    from Suc.hyps(1) [OF this continue(3)] continue(1)
    obtain n where n: "Suc attempt + n \<le> retries"
      "drop 2 evs = backoff url options (Suc attempt) n @ [Fetch url options]"
      by auto
    with continue(4) have "evs = backoff url options attempt (Suc n) @ [Fetch url options]"
      by simp
    with n(1) show ?thesis by (intro exI [of _ "Suc n"]) simp
  next
    case (retry e c1)
    have "k = retries - Suc attempt" using Suc.hyps(2) by simp
    from Suc.hyps(1) [OF this retry(3)] retry(1)
    obtain n where n: "Suc attempt + n \<le> retries"
      "drop 2 evs = backoff url options (Suc attempt) n @ [Fetch url options]"
      by auto
    with retry(4) have "evs = backoff url options attempt (Suc n) @ [Fetch url options]"
      by simp
    with n(1) show ?thesis by (intro exI [of _ "Suc n"]) simp
  qed
qed

lemma delays_backoff:
  "delays (backoff url options a n @ evs) = map (\<lambda>k. 1000 * 2 ^ k) [a ..< a + n] @ delays evs"
  by (induction n arbitrary: a) (simp_all add: upt_conv_Cons del: upt_Suc)

lemma attempts_backoff:
  "attempts (backoff url options a n @ evs) = n + attempts evs"
  by (induction n arbitrary: a) (simp_all add: attempts_def)

lemma sorted_powers: "sorted (map (\<lambda>k. 1000 * (2::nat) ^ k) [a ..< b])"
  by (simp add: sorted_map sorted_wrt_iff_nth_less)

lemma for_loop_retryable_step:
  assumes "retryable (fetch a)" and "a < retries"
  shows "for_loop fetch url options retries a c =
           (case for_loop fetch url options retries (Suc a) c of
              (r, c', evs) \<Rightarrow> (r, c', Fetch url options # Sleep (2 ^ a * 1000) # evs))"
proof (cases "fetch a")
  case (Rejected why)
  with assms(2) show ?thesis
    by (subst for_loop.simps) (simp add: try_block_def split: prod.splits)
next
  case (Response st bd)
  with assms have "500 \<le> st" by simp
  then have "\<not> ok st" "st \<noteq> 401" "st \<noteq> 403" by (simp_all add: ok_def)
  with Response assms(2) \<open>500 \<le> st\<close> show ?thesis
    by (subst for_loop.simps) (simp add: try_block_def split: prod.splits)
qed

lemma for_loop_skip_retryable:
  assumes "\<forall>j<n. retryable (fetch (a + j))" and "a + n \<le> retries"
  shows "for_loop fetch url options retries a c =
           (case for_loop fetch url options retries (a + n) c of
              (r, c', evs) \<Rightarrow> (r, c', backoff url options a n @ evs))"
  using assms
proof (induction n arbitrary: a)
  case 0
  show ?case by (simp split: prod.splits)
next
  case (Suc n)
  from Suc.prems(1) have first: "retryable (fetch a)" by (metis add.right_neutral zero_less_Suc)
  have rest: "\<forall>j<n. retryable (fetch (Suc a + j))"
    using Suc.prems(1) by (metis Suc_less_eq add_Suc_shift)
  from Suc.prems(2) have "a < retries" "Suc a + n \<le> retries" by simp_all
  from for_loop_retryable_step [of fetch a retries url options c, OF first \<open>a < retries\<close>]
    Suc.IH [OF rest \<open>Suc a + n \<le> retries\<close>]
  show ?case by (simp split: prod.splits)
qed

text \<open>What the loop does on its last attempt and on a success.\<close>

lemma for_loop_last_rejected:
  assumes "fetch retries = Rejected txt"
  shows "for_loop fetch url options retries retries c =
           (Throw (FetchError txt), c, [Fetch url options])"
  using assms by (subst for_loop.simps) (simp add: try_block_def)

lemma for_loop_success:
  assumes "fetch k = Response st (Parsed env)" and "ok st" and "type env \<noteq> danger"
    and "k \<le> retries"
  shows "for_loop fetch url options retries k c = (Return env, c, [Fetch url options])"
  using assms by (subst for_loop.simps) (simp add: try_block_def read_body_def)

lemma for_loop_last_danger:
  assumes "fetch retries = Response st (Parsed env)" and "ok st" and "type env = danger"
  shows "for_loop fetch url options retries retries c =
           (Throw (Error (case msg env of Multi xs \<Rightarrow> join xs | Single x \<Rightarrow> x)), c,
            [Fetch url options])"
  using assms by (subst for_loop.simps) (simp add: try_block_def read_body_def)

lemma for_loop_last_events:
  assumes "for_loop fetch url options retries retries c = (r, c', evs)"
  shows "evs = [Fetch url options]"
proof -
  from for_loop_trace [OF assms] obtain n where
    "retries + n \<le> retries" "evs = backoff url options retries n @ [Fetch url options]"
    by auto
  then show ?thesis by simp
qed

lemma filter_backoff:
  "filter is_Fetch (backoff url options a n) = replicate n (Fetch url options)"
  by (induction n arbitrary: a) simp_all

text \<open>Positions in the trace, and the attempt on which the loop ends.\<close>

lemma attempts_Cons2: "attempts (Fetch u opts # Sleep ms # evs) = Suc (attempts evs)"
  by (simp add: attempts_def)

lemma backoff_length: "length (backoff url options a n) = 2 * n"
  by (induction n arbitrary: a) simp_all

lemma backoff_nth:
  assumes "j < n"
  shows "(backoff url options a n @ evs) ! (2 * j) = Fetch url options"
    and "(backoff url options a n @ evs) ! (2 * j + 1) = Sleep (1000 * 2 ^ (a + j))"
  using assms
proof (induction n arbitrary: a j)
  case 0
  { case 1 then show ?case by simp }
  { case 2 then show ?case by simp }
next
  case (Suc n)
  { case 1
    then show ?case
      using Suc.IH(1) [of "j - 1" "Suc a"] by (cases j) simp_all }
  { case 2
    then show ?case
      using Suc.IH(2) [of "j - 1" "Suc a"] by (cases j) simp_all }
qed



subsection \<open>The session across the iterations\<close>

lemma setSession_None_empty: "session_empty (setSession None c)"
  by (cases "localStorage c") (simp_all add: session_empty_def setSession_def Let_def)

lemma try_block_keeps_empty:
  assumes "try_block fetch url options retries attempt c = (t, c1, evs)" and "session_empty c"
  shows "session_empty c1"
  using assms setSession_None_empty [of c]
  by (auto simp: try_block_def read_body_def
           split: outcome.splits if_splits body_result.splits)

lemma try_block_401:
  assumes "try_block fetch url options retries attempt c = (t, c1, evs)"
    and "fetch attempt = Response 401 bd"
  shows "session_empty c1" and "t = TThrow (Error ''Unauthorized - please login again'')"
  using assms setSession_None_empty [of c]
  by (auto simp: try_block_def ok_def)

lemma for_loop_keeps_empty:
  assumes "for_loop fetch url options retries attempt c = (r, c', evs)" and "session_empty c"
  shows "session_empty c'"
  using assms
proof (induction "Suc retries - attempt" arbitrary: attempt c evs)
  case 0
  from "0.prems"(1) show ?case
    using "0.hyps" "0.prems"(2) by (cases rule: for_loop_cases) auto
next
  case (Suc n)
  from Suc.prems(1) show ?case
  proof (cases rule: for_loop_cases)
    case exit
    with Suc.prems(2) show ?thesis by simp
  next
    case (return d)
    from try_block_keeps_empty [OF return(2) Suc.prems(2)] show ?thesis .
  next
    case continue
    have "n = Suc retries - Suc attempt" using Suc.hyps(2) by simp
    from Suc.hyps(1) [OF this continue(3) Suc.prems(2)] show ?thesis .
  next
    case (throw e)
    from try_block_keeps_empty [OF throw(2) Suc.prems(2)] show ?thesis .
  next
    case (retry e c1)
    have "n = Suc retries - Suc attempt" using Suc.hyps(2) by simp
    from Suc.hyps(1) [OF this retry(3) try_block_keeps_empty [OF retry(2) Suc.prems(2)]]
    show ?thesis .
  qed
qed

lemma for_loop_401:
  assumes "for_loop fetch url options retries attempt c = (r, c', evs)"
    and "attempt \<le> k" and "k < attempt + attempts evs" and "fetch k = Response 401 bd"
  shows "session_empty c'"
  using assms
proof (induction "Suc retries - attempt" arbitrary: attempt c evs)
  case 0
  from "0.prems"(1) show ?case
    using "0.hyps" "0.prems"(2,3) by (cases rule: for_loop_cases) (auto simp: attempts_def)
next
  case (Suc n)
  have n: "n = Suc retries - Suc attempt" using Suc.hyps(2) by simp
  from Suc.prems(1) show ?case
  proof (cases rule: for_loop_cases)
    case exit
    with Suc.prems(2,3) show ?thesis by (simp add: attempts_def)
  next
    case (return d)
    with Suc.prems(2,3) have "k = attempt" by (simp add: attempts_def)
    with try_block_401 [OF return(2)] Suc.prems(4) show ?thesis by simp
  next
    case (throw e)
    with Suc.prems(2,3) have "k = attempt" by (simp add: attempts_def)
    with try_block_401 [OF throw(2)] Suc.prems(4) show ?thesis by simp
  next
    case continue
    have "k \<noteq> attempt"
      using try_block_401(2) [OF continue(2)] Suc.prems(4) by auto
    with Suc.prems(2) have le: "Suc attempt \<le> k" by simp
    have "attempts evs = Suc (attempts (drop 2 evs))"
      by (subst continue(4)) (simp only: attempts_Cons2)
    with Suc.prems(3) have "k < Suc attempt + attempts (drop 2 evs)" by simp
    from Suc.hyps(1) [OF n continue(3) le this Suc.prems(4)] show ?thesis .
  next
    case (retry e c1)
    show ?thesis
    proof (cases "k = attempt")
      case True
      with try_block_401(1) [OF retry(2)] Suc.prems(4) have "session_empty c1" by simp
      from for_loop_keeps_empty [OF retry(3) this] show ?thesis .
    next
      case False
      with Suc.prems(2) have le: "Suc attempt \<le> k" by simp
      have "attempts evs = Suc (attempts (drop 2 evs))"
        by (subst retry(4)) (simp only: attempts_Cons2)
      with Suc.prems(3) have "k < Suc attempt + attempts (drop 2 evs)" by simp
      from Suc.hyps(1) [OF n retry(3) le this Suc.prems(4)] show ?thesis .
    qed
  qed
qed

section \<open>The whole call\<close>

lemma request_events:
  "events_of (request fetch m query b retries c) =
     snd (snd (for_loop fetch (buildUrl c query) (request_options c m b) retries 0 c))"
  by (simp add: request_def events_of_def split: prod.splits loop_end.splits)

lemma request_client:
  "client_of (request fetch m query b retries c) =
     fst (snd (for_loop fetch (buildUrl c query) (request_options c m b) retries 0 c))"
  by (simp add: request_def client_of_def split: prod.splits loop_end.splits)

lemma request_trace:
  "\<exists>n. n \<le> retries \<and>
     events_of (request fetch m query b retries c) =
       backoff (buildUrl c query) (request_options c m b) 0 n @
       [Fetch (buildUrl c query) (request_options c m b)]"
proof -
  obtain r c' evs where
    fl: "for_loop fetch (buildUrl c query) (request_options c m b) retries 0 c = (r, c', evs)"
    by (cases "for_loop fetch (buildUrl c query) (request_options c m b) retries 0 c") auto
  from for_loop_trace [OF fl] show ?thesis
    by (simp add: request_events fl)
qed

lemma request_all_retryable:
  assumes "\<forall>k\<le>retries. retryable (fetch k)"
  shows "request fetch m query b retries c =
    (case for_loop fetch (buildUrl c query) (request_options c m b) retries retries c of
       (Return d, c1, evs) \<Rightarrow>
         (Inr d, c1, backoff (buildUrl c query) (request_options c m b) 0 retries @ evs)
     | (Throw e, c1, evs) \<Rightarrow>
         (Inl e, c1, backoff (buildUrl c query) (request_options c m b) 0 retries @ evs)
     | (Fallthrough, c1, evs) \<Rightarrow>
         (Inl (Error ''Maximum retries exceeded''), c1,
          backoff (buildUrl c query) (request_options c m b) 0 retries @ evs))"
proof -
  from assms have "\<forall>j<retries. retryable (fetch (0 + j))" by simp
  from for_loop_skip_retryable [OF this, of retries] show ?thesis
    by (simp add: request_def split: prod.splits loop_end.splits)
qed

lemma request_success:
  assumes "k \<le> retries" and "\<forall>j<k. retryable (fetch j)"
    and "fetch k = Response st (Parsed env)" and "ok st" and "type env \<noteq> danger"
  shows "request fetch m query b retries c =
           (Inr env, c, backoff (buildUrl c query) (request_options c m b) 0 k @
              [Fetch (buildUrl c query) (request_options c m b)])"
proof -
  from assms(2) have "\<forall>j<k. retryable (fetch (0 + j))" by simp
  from for_loop_skip_retryable [OF this, of retries] assms(1)
    for_loop_success [where fetch = fetch and k = k, OF assms(3-5) assms(1)]
  show ?thesis
    by (simp add: request_def)
qed




lemma request_fetches:
  "filter is_Fetch (events_of (request fetch m query b retries c)) =
     replicate (attempts (events_of (request fetch m query b retries c)))
       (Fetch (buildUrl c query) (request_options c m b))"
proof -
  obtain n where
    "events_of (request fetch m query b retries c) =
       backoff (buildUrl c query) (request_options c m b) 0 n @
       [Fetch (buildUrl c query) (request_options c m b)]"
    using request_trace by blast
  then show ?thesis
    by (simp add: filter_backoff attempts_def replicate_append_same)
qed

lemma session_empty_after_401:
  assumes "k < attempts (events_of (request fetch m query b retries c))"
    and "fetch k = Response 401 bd"
  shows "session_empty (client_of (request fetch m query b retries c))"
proof -
  obtain r c' evs where
    fl: "for_loop fetch (buildUrl c query) (request_options c m b) retries 0 c = (r, c', evs)"
    by (cases "for_loop fetch (buildUrl c query) (request_options c m b) retries 0 c") auto
  from assms(1) have "k < 0 + attempts evs" by (simp add: request_events fl)
  from for_loop_401 [OF fl _ this assms(2)] show ?thesis
    by (simp add: request_client fl)
qed

lemma application_error_on_last_attempt:
  assumes "\<forall>j<retries. retryable (fetch j)"
    and "fetch retries = Response st (Parsed env)" and "ok st" and "type env = danger"
  shows "result_of (request fetch m query b retries c) =
           Inl (Error (case msg env of Multi xs \<Rightarrow> join xs | Single x \<Rightarrow> x))"
proof -
  from assms(1) have "\<forall>j<retries. retryable (fetch (0 + j))" by simp
  from for_loop_skip_retryable [OF this, of retries]
    for_loop_last_danger [where fetch = fetch and retries = retries, OF assms(2-4)]
  show ?thesis
    by (simp add: request_def result_of_def)
qed

lemma getMailboxes_success:
  assumes "k \<le> 3" and "\<forall>j<k. retryable (fetch j)"
    and "fetch k = Response st (Parsed env)" and "ok st" and "type env \<noteq> danger"
  shows "result_of (getMailboxes fetch c) = Inr (case data env of Some d \<Rightarrow> d | None \<Rightarrow> [])"
  using request_success [OF assms]
  by (simp add: getMailboxes_def result_of_def)

subsection \<open>The encoded operation\<close>

lemma hexdigit_unreserved: "unreserved (hexdigit n)"
proof -
  have "hexdigit n \<in> set ''0123456789ABCDEF''"
    unfolding hexdigit_def by (rule nth_mem) simp
  then show ?thesis
    by (auto simp: unreserved_def)
qed

lemma encodeURIComponent_chars:
  assumes "ch \<in> set (encodeURIComponent q)"
  shows "unreserved ch \<or> ch = CHR ''%''"
  using assms
  by (auto simp: encodeURIComponent_def percent_def hexdigit_unreserved split: if_splits)

lemma encodeURIComponent_no_separator:
  "set (encodeURIComponent q) \<inter> set ''&=?#/+ '' = {}"
proof -
  have "\<not> (unreserved ch \<or> ch = CHR ''%'')" if "ch \<in> set ''&=?#/+ ''" for ch
    using that by (auto simp: unreserved_def)
  with encodeURIComponent_chars show ?thesis by blast
qed

section \<open>Retries and fatal outcomes\<close>

text \<open>
  C1. A 401, a 403 and a 2xx response with a \<open>danger\<close> envelope are meant to end the call
  after one transport attempt. The three \<open>throw\<close> statements stand inside the \<open>try\<close> block
  whose \<open>catch\<close> clause retries (its comment speaks of network errors only), so with the
  default budget each of these outcomes, when the backend repeats it, is attempted four
  times, with sleeps of 1, 2 and 4 seconds in between.
\<close>

theorem fatal_outcomes_are_retried:
  "attempts (events_of (request (always (Response 401 (Unparseable ''Unauthorized'') :: json outcome))
      GET ''get/mailbox/all'' None 3 client0)) = 4 \<and>
   attempts (events_of (request (always (Response 403 (Unparseable ''Forbidden'') :: json outcome))
      GET ''get/mailbox/all'' None 3 client0)) = 4 \<and>
   attempts (events_of (request (always (Response 200 (Parsed envelope_taken)))
      GET ''get/mailbox/all'' None 3 client0)) = 4 \<and>
   delays (events_of (request (always (Response 403 (Unparseable ''Forbidden'') :: json outcome))
      GET ''get/mailbox/all'' None 3 client0)) = [1000, 2000, 4000]"
  by (simp add: always_def request_def events_of_def for_loop.simps try_block_def read_body_def
      ok_def attempts_def envelope_taken_def)

text \<open>
  C2 (amended). If every attempt up to the budget fails with a retryable outcome, \<open>request\<close>
  makes exactly \<open>retries + 1\<close> transport attempts. When the last of them is a fetch that
  did not complete, the call raises the very error that fetch failed with: the \<open>catch\<close>
  clause rethrows it, and no error of a kind of its own marks the exhausted budget.
\<close>

theorem retry_ceiling:
  assumes "\<forall>k\<le>retries. retryable (fetch k)"
  shows "attempts (events_of (request fetch m query b retries c)) = retries + 1 \<and>
         (\<forall>why. fetch retries = Rejected why \<longrightarrow>
            result_of (request fetch m query b retries c) = Inl (FetchError why))"
proof -
  obtain r c' evs where last:
    "for_loop fetch (buildUrl c query) (request_options c m b) retries retries c = (r, c', evs)"
    by (cases "for_loop fetch (buildUrl c query) (request_options c m b) retries retries c") auto
  have evs: "evs = [Fetch (buildUrl c query) (request_options c m b)]"
    using for_loop_last_events [OF last] .
  have "events_of (request fetch m query b retries c) =
          backoff (buildUrl c query) (request_options c m b) 0 retries @ evs"
    by (simp add: request_all_retryable [OF assms] last events_of_def split: loop_end.splits)
  then have count: "attempts (events_of (request fetch m query b retries c)) = retries + 1"
    by (simp add: evs attempts_backoff) (simp add: attempts_def)
  have "result_of (request fetch m query b retries c) = Inl (FetchError why)"
    if "fetch retries = Rejected why" for why
    using for_loop_last_rejected [where fetch = fetch and retries = retries, OF that]
    by (simp add: request_all_retryable [OF assms] result_of_def)
  with count show ?thesis by blast
qed

theorem retry_ceiling_witness:
  "retryable (always (Rejected ''Failed to fetch'' :: json outcome) 0) \<and>
   retryable (always (Rejected ''Failed to fetch'' :: json outcome) 1) \<and>
   retryable (always (Rejected ''Failed to fetch'' :: json outcome) 2) \<and>
   always (Rejected ''Failed to fetch'' :: json outcome) 2 = Rejected ''Failed to fetch'' \<and>
   attempts (events_of (request (always (Rejected ''Failed to fetch'' :: json outcome))
     GET ''get/mailbox/all'' None 2 client0)) = 3 \<and>
   result_of (request (always (Rejected ''Failed to fetch'' :: json outcome))
     GET ''get/mailbox/all'' None 2 client0) = Inl (FetchError ''Failed to fetch'')"
  using retry_ceiling [of 2 "always (Rejected ''Failed to fetch'')" GET
    "''get/mailbox/all''" None client0]
  by (simp add: always_def)

text \<open>
  Counterexample to C2 as first stated (an error of a kind of its own once the budget is
  spent): with a budget of 0 and an unreachable backend the call raises the fetch's own
  error, not the error \<open>Maximum retries exceeded\<close>.
\<close>

theorem exhausted_fetch_failure_counterexample:
  "result_of (request (always (Rejected ''Failed to fetch'' :: json outcome))
     GET ''get/mailbox/all'' None 0 client0) = Inl (FetchError ''Failed to fetch'') \<and>
   result_of (request (always (Rejected ''Failed to fetch'' :: json outcome))
     GET ''get/mailbox/all'' None 0 client0) \<noteq> Inl (Error ''Maximum retries exceeded'')"
  by (simp add: request_def result_of_def for_loop.simps try_block_def always_def)

text \<open>
  C3 (amended). The headers and options are built once, before the loop, and every attempt
  of a call is sent with the same ones: \<open>Content-Type: application/json\<close> always,
  \<open>X-API-Key\<close> exactly when an API key is configured, credentials \<open>include\<close>. They do not
  depend on the session: no header carries the session token, held or not.
\<close>

theorem options_fixed_for_all_attempts:
  "filter is_Fetch (events_of (request fetch m query b retries c)) =
     replicate (attempts (events_of (request fetch m query b retries c)))
       (Fetch (buildUrl c query) (request_options c m b)) \<and>
   headers (request_options c m b) =
     (''Content-Type'', ''application/json'') #
     (if apiKey c = [] then [] else [(''X-API-Key'', apiKey c)]) \<and>
   credentials (request_options c m b) = ''include'' \<and>
   request_options (c\<lparr>sessionId := sid\<rparr>) m b = request_options c m b"
  using request_fetches [of fetch m query b retries c]
  by (simp add: request_options_def request_headers_def)

text \<open>
  Counterexample to C3 as first stated (the session token attached whenever a session is
  held): a client that holds the session \<open>s3cr3t\<close> sends its attempt with the content-type
  header alone.
\<close>

theorem session_header_counterexample:
  "sessionId client0 = Some ''s3cr3t'' \<and>
   events_of (request (always (Response 200 (Parsed envelope0))) GET ''get/user/auth'' None 3
     client0) =
     [Fetch ''/json_api.php?query=get%2Fuser%2Fauth''
        \<lparr>method = GET, headers = [(''Content-Type'', ''application/json'')],
         credentials = ''include'', body = None\<rparr>]"
  by (simp add: client0_def envelope0_def always_def request_def events_of_def for_loop.simps
      try_block_def read_body_def ok_def buildUrl_def request_options_def request_headers_def
      encodeURIComponent_def unreserved_def percent_def hexdigit_def)

text \<open>
  C4. The trace of every call is: attempt 0, a sleep of \<open>1000 * 2^0\<close> ms, attempt 1, a sleep of
  \<open>1000 * 2^1\<close> ms, and so on up to the last attempt. Between attempt \<open>j\<close> and attempt
  \<open>j + 1\<close> the call sleeps exactly once, for \<open>1000 * 2^j\<close> ms: the delay slept before retry
  attempt \<open>k\<close> is \<open>1000 * 2^(k-1)\<close>, and the delays never decrease. The argument of \<open>sleep\<close>
  is taken as an exact integer, which \<open>Math.pow(2, attempt) * 1000\<close> is for every attempt
  index below 1015.
\<close>

theorem backoff_delays:
  "events_of (request fetch m query b retries c) =
     backoff (buildUrl c query) (request_options c m b) 0
       (attempts (events_of (request fetch m query b retries c)) - 1) @
     [Fetch (buildUrl c query) (request_options c m b)] \<and>
   (\<forall>j. Suc j < attempts (events_of (request fetch m query b retries c)) \<longrightarrow>
      events_of (request fetch m query b retries c) ! (2 * j) =
        Fetch (buildUrl c query) (request_options c m b) \<and>
      events_of (request fetch m query b retries c) ! (2 * j + 1) = Sleep (1000 * 2 ^ j) \<and>
      events_of (request fetch m query b retries c) ! (2 * j + 2) =
        Fetch (buildUrl c query) (request_options c m b)) \<and>
   delays (events_of (request fetch m query b retries c)) =
     map (\<lambda>k. 1000 * 2 ^ k) [0 ..< attempts (events_of (request fetch m query b retries c)) - 1] \<and>
   sorted (delays (events_of (request fetch m query b retries c)))"
proof -
  let ?url = "buildUrl c query" and ?opts = "request_options c m b"
  let ?evs = "events_of (request fetch m query b retries c)"
  obtain n where shape: "?evs = backoff ?url ?opts 0 n @ [Fetch ?url ?opts]"
    using request_trace by blast
  then have count: "attempts ?evs = Suc n"
    by (simp add: attempts_backoff) (simp add: attempts_def)
  have del: "delays ?evs = map (\<lambda>k. 1000 * 2 ^ k) [0 ..< n]"
    by (simp add: shape delays_backoff)
  have nth: "?evs ! (2 * j) = Fetch ?url ?opts \<and> ?evs ! (2 * j + 1) = Sleep (1000 * 2 ^ j) \<and>
      ?evs ! (2 * j + 2) = Fetch ?url ?opts" if "j < n" for j
  proof -
    have "?evs ! (2 * j + 2) = Fetch ?url ?opts"
    proof (cases "Suc j < n")
      case True
      from backoff_nth(1) [OF this, of ?url ?opts 0 "[Fetch ?url ?opts]"] show ?thesis
        by (simp add: shape)
    next
      case False
      with that have "2 * j + 2 = length (backoff ?url ?opts 0 n)"
        by (simp add: backoff_length)
      then show ?thesis by (simp add: shape nth_append)
    qed
    with backoff_nth [OF that, of ?url ?opts 0 "[Fetch ?url ?opts]"] show ?thesis
      by (simp add: shape)
  qed
  from shape count del nth sorted_powers [of 0 n] show ?thesis
    by simp
qed

theorem backoff_delays_witness:
  "Suc 1 < attempts (events_of (request (always (Response 503 (Unparseable ''Unavailable'')
      :: json outcome)) GET ''get/mailbox/all'' None 3 client0)) \<and>
   events_of (request (always (Response 503 (Unparseable ''Unavailable'') :: json outcome))
      GET ''get/mailbox/all'' None 3 client0) ! (2 * 1 + 1) = Sleep (1000 * 2 ^ 1)"
proof -
  have "Suc 1 < attempts (events_of (request (always (Response 503 (Unparseable ''Unavailable'')
      :: json outcome)) GET ''get/mailbox/all'' None 3 client0))"
    by (simp add: always_def request_def events_of_def for_loop.simps try_block_def
        read_body_def ok_def attempts_def)
  with backoff_delays [of "always (Response 503 (Unparseable ''Unavailable'') :: json outcome)"
      GET "''get/mailbox/all''" None 3 client0]
  show ?thesis by blast
qed

section \<open>Session, envelope and target\<close>

text \<open>
  C5. After a call in which some attempt received a 401 the session store is empty (lemma
  \<open>session_empty_after_401\<close>). A 401 on the first attempt is meant to end the call with the
  error \<open>Unauthorized\<close> at once; it does not: with the default budget the call sleeps, tries
  again and here returns the second attempt's envelope, the session being cleared.
\<close>

theorem unauthorized_on_first_attempt_is_retried:
  "result_of (request (first_then (Response 401 (Unparseable ''Unauthorized''))
       (Response 200 (Parsed envelope0))) GET ''get/user/auth'' None 3 client0) = Inr envelope0 \<and>
   attempts (events_of (request (first_then (Response 401 (Unparseable ''Unauthorized''))
       (Response 200 (Parsed envelope0))) GET ''get/user/auth'' None 3 client0)) = 2 \<and>
   session_empty (client_of (request (first_then (Response 401 (Unparseable ''Unauthorized''))
       (Response 200 (Parsed envelope0))) GET ''get/user/auth'' None 3 client0))"
  by (simp add: first_then_def request_def events_of_def result_of_def client_of_def
      for_loop.simps try_block_def read_body_def ok_def attempts_def envelope0_def
      session_empty_def setSession_def client0_def)




text \<open>
  C7. A 2xx response with a \<open>danger\<close> envelope raises an error with the envelope's message
  (the \<open>msg\<close> string, or the list joined with \<open>", "\<close>) to the caller only when it arrives
  on the last attempt (lemma \<open>application_error_on_last_attempt\<close>). On an earlier attempt
  the \<open>catch\<close> clause swallows the error and the call retries; here the caller receives
  the second attempt's envelope and never sees the message \<open>username taken\<close>.
\<close>

theorem application_error_is_retried:
  "result_of (request (first_then (Response 200 (Parsed envelope_taken))
       (Response 200 (Parsed envelope0))) POST ''add/mailbox'' None 3 client0) = Inr envelope0 \<and>
   attempts (events_of (request (first_then (Response 200 (Parsed envelope_taken))
       (Response 200 (Parsed envelope0))) POST ''add/mailbox'' None 3 client0)) = 2"
  by (simp add: first_then_def request_def events_of_def result_of_def
      for_loop.simps try_block_def read_body_def ok_def attempts_def envelope0_def
      envelope_taken_def)

text \<open>
  C8. The URL of every attempt is the base address, the text \<open>?query=\<close> and
  \<open>encodeURIComponent\<close> of the operation; the encoded operation contains none of the
  characters that separate or start URL parts, so it stays one query parameter. The verb
  of every attempt is the one given to \<open>request\<close>, and only a POST or PUT carries a body.
\<close>

theorem request_target_and_verb:
  "buildUrl c query = baseUrl c @ ''?query='' @ encodeURIComponent query \<and>
   set (encodeURIComponent query) \<inter> set ''&=?#/+ '' = {} \<and>
   filter is_Fetch (events_of (request fetch m query b retries c)) =
     replicate (attempts (events_of (request fetch m query b retries c)))
       (Fetch (buildUrl c query) (request_options c m b)) \<and>
   method (request_options c m b) = m \<and>
   (body (request_options c m b) \<noteq> None \<longrightarrow> m = POST \<or> m = PUT)"
  using request_fetches [of fetch m query b retries c] encodeURIComponent_no_separator [of query]
  by (simp add: buildUrl_def request_options_def split: option.splits)

theorem request_target_and_verb_witness:
  "body (request_options client0 POST (Some (JObject [(''username'', JString ''a'')]))) \<noteq> None \<and>
   (POST = POST \<or> POST = PUT) \<and>
   buildUrl client0 ''add/mailbox'' = ''/json_api.php?query=add%2Fmailbox'' \<and>
   filter is_Fetch (events_of (request (always (Rejected ''Failed to fetch'' :: json outcome))
       POST ''add/mailbox'' (Some (JObject [(''username'', JString ''a'')])) 0 client0)) =
     [Fetch ''/json_api.php?query=add%2Fmailbox''
        \<lparr>method = POST, headers = [(''Content-Type'', ''application/json'')],
         credentials = ''include'', body = Some (JObject [(''username'', JString ''a'')])\<rparr>]"
  using request_target_and_verb [of client0 "''add/mailbox''"
    "always (Rejected ''Failed to fetch'' :: json outcome)" POST
    "Some (JObject [(''username'', JString ''a'')])" 0]
  by (simp add: client0_def always_def request_def events_of_def for_loop.simps
      try_block_def buildUrl_def request_options_def request_headers_def attempts_def
      encodeURIComponent_def unreserved_def percent_def hexdigit_def)

text \<open>
  C9. For every retry budget and every sequence of transport outcomes, the loop of
  \<open>request\<close> ends by a \<open>return\<close> or by a \<open>throw\<close> from its own body; it never ends by
  its condition, so the statement \<open>throw new Error('Maximum retries exceeded')\<close> after the
  loop is never reached.
\<close>

theorem trailing_throw_unreachable:
  "fst (for_loop fetch (buildUrl c query) (request_options c m b) retries 0 c) \<noteq> Fallthrough"
proof -
  obtain r c' evs where
    fl: "for_loop fetch (buildUrl c query) (request_options c m b) retries 0 c = (r, c', evs)"
    by (cases "for_loop fetch (buildUrl c query) (request_options c m b) retries 0 c") auto
  from for_loop_not_fallthrough [OF fl] show ?thesis
    by (simp add: fl)
qed

section \<open>Operations that catch\<close>

text \<open>
  C10. \<open>getAuthStatus\<close> and \<open>getAnalysis\<close> always return: when \<open>request\<close> raises, whatever
  the error, they return \<open>null\<close>; when it returns an envelope they return its \<open>data\<close>, which
  is \<open>null\<close> when the field is absent.
\<close>

theorem auth_status_and_analysis_never_raise:
  "(\<exists>v. result_of (getAuthStatus fetch c) = Inr v) \<and>
   (\<forall>e. result_of (request fetch GET ''get/user/auth'' None 3 c) = Inl e \<longrightarrow>
      result_of (getAuthStatus fetch c) = Inr None) \<and>
   (\<forall>env. result_of (request fetch GET ''get/user/auth'' None 3 c) = Inr env \<longrightarrow>
      result_of (getAuthStatus fetch c) = Inr (data env)) \<and>
   (\<exists>v. result_of (getAnalysis fetch emailId mailbox c) = Inr v) \<and>
   (\<forall>e. result_of (request fetch GET
            (''get/llm/analysis?email_id='' @ emailId @ ''&mailbox='' @ mailbox) None 3 c) = Inl e \<longrightarrow>
      result_of (getAnalysis fetch emailId mailbox c) = Inr None) \<and>
   (\<forall>env. result_of (request fetch GET
            (''get/llm/analysis?email_id='' @ emailId @ ''&mailbox='' @ mailbox) None 3 c) = Inr env \<longrightarrow>
      result_of (getAnalysis fetch emailId mailbox c) = Inr (data env))"
proof -
  have auth: "result_of (getAuthStatus fetch c) =
      Inr (case result_of (request fetch GET ''get/user/auth'' None 3 c) of
             Inl e \<Rightarrow> None | Inr env \<Rightarrow> data env)"
    by (simp add: getAuthStatus_def result_of_def split: prod.splits sum.splits option.splits)
  have analysis: "result_of (getAnalysis fetch emailId mailbox c) =
      Inr (case result_of (request fetch GET
                 (''get/llm/analysis?email_id='' @ emailId @ ''&mailbox='' @ mailbox) None 3 c) of
             Inl e \<Rightarrow> None | Inr env \<Rightarrow> data env)"
    by (simp add: getAnalysis_def result_of_def split: prod.splits sum.splits option.splits)
  show ?thesis
    unfolding auth analysis by simp
qed

theorem auth_status_and_analysis_never_raise_witness:
  "result_of (request (always (Response 401 (Unparseable ''Unauthorized'') :: json outcome))
      GET ''get/user/auth'' None 3 client0) = Inl (Error ''Unauthorized - please login again'') \<and>
   result_of (getAuthStatus (always (Response 401 (Unparseable ''Unauthorized'') :: json outcome))
      client0) = Inr None \<and>
   result_of (request (always (Response 200 (Parsed envelope_info)))
      GET (''get/llm/analysis?email_id='' @ ''17'' @ ''&mailbox='' @ ''a@example.org'') None 3
      client0) = Inr envelope_info \<and>
   result_of (getAnalysis (always (Response 200 (Parsed envelope_info))) ''17'' ''a@example.org''
      client0) = Inr None"
proof -
  have r1: "result_of (request (always (Response 401 (Unparseable ''Unauthorized'') :: json outcome))
      GET ''get/user/auth'' None 3 client0) = Inl (Error ''Unauthorized - please login again'')"
    by (simp add: always_def request_def result_of_def for_loop.simps try_block_def ok_def)
  have r2: "result_of (request (always (Response 200 (Parsed envelope_info)))
      GET (''get/llm/analysis?email_id='' @ ''17'' @ ''&mailbox='' @ ''a@example.org'') None 3
      client0) = Inr envelope_info"
    by (simp add: always_def request_def result_of_def for_loop.simps try_block_def ok_def
        read_body_def envelope_info_def)
  from auth_status_and_analysis_never_raise
    [of "always (Response 401 (Unparseable ''Unauthorized'') :: json outcome)" client0]
    auth_status_and_analysis_never_raise
    [of "always (Response 200 (Parsed envelope_info))" client0 "''17''" "''a@example.org''"]
    r1 r2
  show ?thesis by (simp add: envelope_info_def)
qed

end
